theory Spec2Isabelle
  imports Main "HOL-Library.Code_Target_Nat"
begin

section \<open>JavaScript strings\<close>

text \<open>
  The repository generates release notes from merged pull requests. Two scripts share
  the engine that is modelled here: the generator of the notes of one release, with its
  \<open>main\<close>, and \<open>backfill-releases.mjs\<close>, with its \<open>buildGrouped\<close>. The definitions
  follow the generator; where the backfill script differs in a step that a statement
  below is about, the step has a second definition with the suffix \<open>_backfill\<close>.

  A JavaScript string is a sequence of UTF-16 code units; \<open>length\<close>, \<open>slice\<close>,
  \<open>charAt\<close> and the regular expressions of the scripts (none carries the \<open>u\<close> flag)
  all count and compare code units. A code unit is modelled by its number, and a
  literal of the scripts is written \<open>js ''...''\<close>.

  The Unicode case tables of the runtime are not part of the repository:
  \<open>toUpperCase\<close> and \<open>toLowerCase\<close> are modelled on the ASCII letters and leave every
  other code unit as it is. For the \<open>i\<close> flag of a regular expression without the
  \<open>u\<close> flag this is exact: canonicalisation never maps a non-ASCII code unit to an
  ASCII one, and every pattern of the scripts is ASCII. For the string methods it is
  exact on strings whose letters are ASCII; a letter outside ASCII, which the runtime
  would map, stays as it is in \<open>cleanPRTitle\<close>, \<open>upperFirst\<close> and \<open>lowerFirst\<close>. The
  inputs that are evaluated below are ASCII.

  Each pattern of the scripts is written out as the function that decides it. The
  patterns are deterministic where it matters: a greedy class is always followed by
  something outside the class, so the longest run is the only one that can match.
\<close>

type_synonym jschar = nat
type_synonym jsstring = "jschar list"

abbreviation js :: "string \<Rightarrow> jsstring" where
  "js s \<equiv> map of_char s"

definition isLowerAZ :: "jschar \<Rightarrow> bool" where
  "isLowerAZ c = (97 \<le> c \<and> c \<le> 122)"

definition isUpperAZ :: "jschar \<Rightarrow> bool" where
  "isUpperAZ c = (65 \<le> c \<and> c \<le> 90)"

definition isDigit :: "jschar \<Rightarrow> bool" where
  \<comment> \<open>the class \<open>\d\<close>\<close>
  "isDigit c = (48 \<le> c \<and> c \<le> 57)"

definition isWordChar :: "jschar \<Rightarrow> bool" where
  \<comment> \<open>the class \<open>\w\<close>, which decides \<open>\b\<close>\<close>
  "isWordChar c = (isLowerAZ c \<or> isUpperAZ c \<or> isDigit c \<or> c = 95)"

definition isLineTerminator :: "jschar \<Rightarrow> bool" where
  \<comment> \<open>LF, CR, LS, PS: what \<open>^\<close> looks for behind it under the \<open>m\<close> flag\<close>
  "isLineTerminator c = (c = 10 \<or> c = 13 \<or> c = 8232 \<or> c = 8233)"

definition isWhiteSpace :: "jschar \<Rightarrow> bool" where
  \<comment> \<open>the class \<open>\s\<close>, which is also what \<open>trim\<close> removes: WhiteSpace and LineTerminator\<close>
  "isWhiteSpace c =
     (c = 9 \<or> c = 10 \<or> c = 11 \<or> c = 12 \<or> c = 13 \<or> c = 32 \<or> c = 160 \<or> c = 5760 \<or>
      (8192 \<le> c \<and> c \<le> 8202) \<or> c = 8232 \<or> c = 8233 \<or> c = 8239 \<or> c = 8287 \<or>
      c = 12288 \<or> c = 65279)"

definition toUpperCU :: "jschar \<Rightarrow> jschar" where
  "toUpperCU c = (if isLowerAZ c then c - 32 else c)"

definition toLowerCU :: "jschar \<Rightarrow> jschar" where
  "toLowerCU c = (if isUpperAZ c then c + 32 else c)"

definition toUpperCase :: "jsstring \<Rightarrow> jsstring" where
  "toUpperCase s = map toUpperCU s"

definition toLowerCase :: "jsstring \<Rightarrow> jsstring" where
  "toLowerCase s = map toLowerCU s"

definition trim :: "jsstring \<Rightarrow> jsstring" where
  "trim s = rev (dropWhile isWhiteSpace (rev (dropWhile isWhiteSpace s)))"

text \<open>
  \<open>stripPrefixCI lit s\<close> matches the literal \<open>lit\<close> of a pattern with the \<open>i\<close> flag at
  the start of \<open>s\<close> and returns what follows the match.
\<close>

fun stripPrefixCI :: "jsstring \<Rightarrow> jsstring \<Rightarrow> jsstring option" where
  "stripPrefixCI [] s = Some s"
| "stripPrefixCI (p # ps) [] = None"
| "stripPrefixCI (p # ps) (c # cs) =
     (if toUpperCU p = toUpperCU c then stripPrefixCI ps cs else None)"

definition wordBoundary :: "bool \<Rightarrow> jsstring \<Rightarrow> bool" where
  \<comment> \<open>\<open>\b\<close> between a code unit that is (or is not) a word character and the rest of the input\<close>
  "wordBoundary prevWord rest =
     (prevWord \<noteq> (case rest of [] \<Rightarrow> False | c # _ \<Rightarrow> isWordChar c))"

subsection \<open>Title patterns\<close>

text \<open>
  \<open>/\blit\b/i\<close> for a literal \<open>lit\<close> that ends in a word character, tried at the
  current position and then at every later one, as \<open>RegExp.prototype.test\<close> does.
  \<open>prevWord\<close> says whether the code unit before the current position is a word character.
\<close>

definition wordHere :: "jsstring \<Rightarrow> bool \<Rightarrow> jsstring \<Rightarrow> bool" where
  "wordHere lit prevWord s =
     (wordBoundary prevWord s \<and>
      (case stripPrefixCI lit s of None \<Rightarrow> False | Some r \<Rightarrow> wordBoundary True r))"

fun searchWord :: "jsstring \<Rightarrow> bool \<Rightarrow> jsstring \<Rightarrow> bool" where
  "searchWord lit prevWord [] = wordHere lit prevWord []"
| "searchWord lit prevWord (c # cs) =
     (wordHere lit prevWord (c # cs) \<or> searchWord lit (isWordChar c) cs)"

definition re_staging_word :: "jsstring \<Rightarrow> bool" where
  \<comment> \<open>\<open>/\bstaging\b/i\<close>\<close>
  "re_staging_word t = searchWord (js ''staging'') False t"

definition re_update_staging :: "jsstring \<Rightarrow> bool" where
  \<comment> \<open>\<open>/^update staging\b/i\<close>\<close>
  "re_update_staging t =
     (case stripPrefixCI (js ''update staging'') t of
        None \<Rightarrow> False | Some r \<Rightarrow> wordBoundary True r)"

definition re_staging_start :: "jsstring \<Rightarrow> bool" where
  \<comment> \<open>\<open>/^staging\b/i\<close>\<close>
  "re_staging_start t =
     (case stripPrefixCI (js ''staging'') t of
        None \<Rightarrow> False | Some r \<Rightarrow> wordBoundary True r)"

definition EXCLUDE_TITLE_PATTERNS :: "(jsstring \<Rightarrow> bool) list" where
  "EXCLUDE_TITLE_PATTERNS = [re_staging_word, re_update_staging, re_staging_start]"

definition shouldExcludePRTitle :: "jsstring \<Rightarrow> bool" where
  "shouldExcludePRTitle title = list_ex (\<lambda>re. re title) EXCLUDE_TITLE_PATTERNS"

section \<open>String and array primitives\<close>

definition startsWithWs :: "jsstring \<Rightarrow> bool" where
  "startsWithWs s = (case s of [] \<Rightarrow> False | c # _ \<Rightarrow> isWhiteSpace c)"

definition skipWs1 :: "jsstring \<Rightarrow> jsstring option" where
  \<comment> \<open>\<open>\s+\<close>: greedy, at least one\<close>
  "skipWs1 s = (if startsWithWs s then Some (dropWhile isWhiteSpace s) else None)"

fun splitOn :: "jschar \<Rightarrow> jsstring \<Rightarrow> jsstring list" where
  \<comment> \<open>\<open>s.split(sep)\<close> for a separator of one code unit; \<open>''.split(sep)\<close> is \<open>['']\<close>\<close>
  "splitOn sep [] = [[]]"
| "splitOn sep (c # cs) =
     (if c = sep then [] # splitOn sep cs
      else (case splitOn sep cs of [] \<Rightarrow> [[c]] | x # xs \<Rightarrow> (c # x) # xs))"

fun joinWith :: "jsstring \<Rightarrow> jsstring list \<Rightarrow> jsstring" where
  \<comment> \<open>\<open>xs.join(sep)\<close>\<close>
  "joinWith sep [] = []"
| "joinWith sep [x] = x"
| "joinWith sep (x # y # ys) = x @ sep @ joinWith sep (y # ys)"

fun findIndex :: "('a \<Rightarrow> bool) \<Rightarrow> 'a list \<Rightarrow> nat option" where
  \<comment> \<open>\<open>xs.findIndex(p)\<close>, with \<open>None\<close> for \<open>-1\<close>\<close>
  "findIndex p [] = None"
| "findIndex p (x # xs) =
     (if p x then Some 0 else (case findIndex p xs of None \<Rightarrow> None | Some i \<Rightarrow> Some (Suc i)))"

definition lastIndexOf :: "jschar \<Rightarrow> jsstring \<Rightarrow> int" where
  \<comment> \<open>\<open>s.lastIndexOf(ch)\<close>\<close>
  "lastIndexOf ch s =
     (case findIndex (\<lambda>c. c = ch) (rev s) of
        None \<Rightarrow> - 1 | Some i \<Rightarrow> int (length s) - 1 - int i)"

definition slice0 :: "jsstring \<Rightarrow> int \<Rightarrow> jsstring" where
  \<comment> \<open>\<open>s.slice(0, e)\<close>: a negative end counts from the end of the string\<close>
  "slice0 s e = (if e < 0 then take (nat (int (length s) + e)) s else take (nat e) s)"

definition upperFirst :: "jsstring \<Rightarrow> jsstring" where
  \<comment> \<open>\<open>s.charAt(0).toUpperCase() + s.slice(1)\<close>\<close>
  "upperFirst s = (case s of [] \<Rightarrow> [] | c # cs \<Rightarrow> toUpperCU c # cs)"

definition lowerFirst :: "jsstring \<Rightarrow> jsstring" where
  \<comment> \<open>\<open>s.charAt(0).toLowerCase() + s.slice(1)\<close>\<close>
  "lowerFirst s = (case s of [] \<Rightarrow> [] | c # cs \<Rightarrow> toLowerCU c # cs)"

section \<open>The text normalizer\<close>

fun replaceCRLF :: "jsstring \<Rightarrow> jsstring" where
  \<comment> \<open>\<open>.replace(/\r\n/g, '\n')\<close>\<close>
  "replaceCRLF [] = []"
| "replaceCRLF [c] = [c]"
| "replaceCRLF (c # d # ds) =
     (if c = 13 \<and> d = 10 then 10 # replaceCRLF ds else c # replaceCRLF (d # ds))"

text \<open>
  The two marker patterns \<open>/^[-*]\s+/gm\<close> and \<open>/^\d+\.\s+/gm\<close> differ in the marker
  only. \<open>markerBody\<close> matches the marker itself and returns what follows it;
  \<open>lineMarker\<close> adds the greedy \<open>\s+\<close> and returns the last code unit it consumed
  together with the rest of the input.
\<close>

datatype marker = Bullet | Ordered

fun markerBody :: "marker \<Rightarrow> jsstring \<Rightarrow> jsstring option" where
  "markerBody Bullet [] = None"
| "markerBody Bullet (c # cs) = (if c = 45 \<or> c = 42 then Some cs else None)"
| "markerBody Ordered s =
     (if takeWhile isDigit s = [] then None
      else (case dropWhile isDigit s of
              [] \<Rightarrow> None
            | d # r \<Rightarrow> if d = 46 then Some r else None))"

definition lineMarker :: "marker \<Rightarrow> jsstring \<Rightarrow> (jschar \<times> jsstring) option" where
  "lineMarker k s =
     (case markerBody k s of
        None \<Rightarrow> None
      | Some r \<Rightarrow>
          (case takeWhile isWhiteSpace r of
             [] \<Rightarrow> None
           | w # ws \<Rightarrow> Some (last (w # ws), dropWhile isWhiteSpace r)))"

lemma markerBody_shorter: "markerBody k s = Some r \<Longrightarrow> length r < length s"
proof (cases k)
  case Bullet
  assume "markerBody k s = Some r"
  with Bullet show ?thesis by (cases s) (auto split: if_splits)
next
  case Ordered
  assume a: "markerBody k s = Some r"
  with Ordered have "dropWhile isDigit s = 46 # r"
    by (auto split: if_splits list.splits)
  then have "length (dropWhile isDigit s) = Suc (length r)" by simp
  moreover have "length (dropWhile isDigit s) \<le> length s" by (rule length_dropWhile_le)
  ultimately show ?thesis by simp
qed

lemma lineMarker_shorter: "lineMarker k s = Some (w, rest) \<Longrightarrow> length rest < length s"
proof -
  assume "lineMarker k s = Some (w, rest)"
  then obtain r where r: "markerBody k s = Some r" "rest = dropWhile isWhiteSpace r"
    by (auto simp: lineMarker_def split: option.splits list.splits)
  have "length rest \<le> length r" unfolding r(2) by (rule length_dropWhile_le)
  with markerBody_shorter [OF r(1)] show ?thesis by simp
qed

text \<open>
  A global replace under the \<open>m\<close> flag: \<open>atStart\<close> says whether the code unit before
  the current position is a line terminator (or the position is the start of the
  input), which is where \<open>^\<close> matches. After a match the search goes on right behind
  it, and \<open>^\<close> there looks at the last code unit the match consumed.
\<close>

function stripLineMarkers :: "marker \<Rightarrow> bool \<Rightarrow> jsstring \<Rightarrow> jsstring" where
  "stripLineMarkers k atStart [] = []"
| "stripLineMarkers k atStart (c # cs) =
     (case (if atStart then lineMarker k (c # cs) else None) of
        Some (w, rest) \<Rightarrow> stripLineMarkers k (isLineTerminator w) rest
      | None \<Rightarrow> c # stripLineMarkers k (isLineTerminator c) cs)"
  by pat_completeness auto
termination
proof (relation "measure (\<lambda>(k, atStart, s). length s)")
  show "wf (measure (\<lambda>(k, atStart, s). length s))" by simp
next
  fix k :: marker and atStart :: bool and c :: jschar and cs :: jsstring
    and x2 :: "jschar \<times> jsstring" and w :: jschar and rest :: jsstring
  assume "(if atStart then lineMarker k (c # cs) else None) = Some x2" and "(w, rest) = x2"
  then have "lineMarker k (c # cs) = Some (w, rest)" by (auto split: if_splits)
  then have "length rest < length (c # cs)" by (rule lineMarker_shorter)
  then show "((k, isLineTerminator w, rest), (k, atStart, c # cs))
      \<in> measure (\<lambda>(k, atStart, s). length s)" by simp
next
  fix k :: marker and atStart :: bool and c :: jschar and cs :: jsstring
  show "((k, isLineTerminator c, cs), (k, atStart, c # cs))
      \<in> measure (\<lambda>(k, atStart, s). length s)" by simp
qed

function collapseNewlines :: "jsstring \<Rightarrow> jsstring" where
  \<comment> \<open>\<open>.replace(/\n{3,}/g, '\n\n')\<close>: a whole run of three or more line feeds becomes two\<close>
  "collapseNewlines [] = []"
| "collapseNewlines (c # cs) =
     (if c = 10 \<and> 2 \<le> length (takeWhile (\<lambda>d. d = 10) cs)
      then 10 # 10 # collapseNewlines (dropWhile (\<lambda>d. d = 10) cs)
      else c # collapseNewlines cs)"
  by pat_completeness auto
termination
  by (relation "measure length") (auto simp: length_dropWhile_le less_Suc_eq_le)

definition normalizeSummaryText :: "jsstring \<Rightarrow> jsstring" where
  "normalizeSummaryText text =
     trim (collapseNewlines (stripLineMarkers Ordered True
       (stripLineMarkers Bullet True (replaceCRLF text))))"

function collapseWs :: "jsstring \<Rightarrow> jsstring" where
  \<comment> \<open>\<open>.replace(/\s+/g, ' ')\<close>\<close>
  "collapseWs [] = []"
| "collapseWs (c # cs) =
     (if isWhiteSpace c then 32 # collapseWs (dropWhile isWhiteSpace cs)
      else c # collapseWs cs)"
  by pat_completeness auto
termination
  by (relation "measure length") (auto simp: length_dropWhile_le less_Suc_eq_le)

text \<open>
  \<open>maxLen\<close> is an integer, as a bound on a length is. The script compares
  \<open>lastSpace > maxLen * 0.6\<close> in double precision; for an integer \<open>maxLen\<close> of any
  size a string can have, the product compares with the integer \<open>lastSpace\<close> as
  \<open>3 * maxLen / 5\<close> does (where that is an integer the product is rounded to it, the
  error of \<open>0.6\<close> being below half a unit in the last place), so the comparison is
  written \<open>5 * lastSpace > 3 * maxLen\<close>. The ellipsis \<open>U+2026\<close> is one code unit, 8230.
\<close>

definition toSingleLineSummary :: "jsstring \<Rightarrow> int \<Rightarrow> jsstring" where
  "toSingleLineSummary text maxLen =
     (let oneLine = collapseWs (normalizeSummaryText text) in
      if oneLine = [] then []
      else if int (length oneLine) \<le> maxLen then oneLine
      else
        (let truncated = slice0 oneLine maxLen;
             lastSpace = lastIndexOf 32 truncated
         in if 5 * lastSpace > 3 * maxLen then slice0 truncated lastSpace @ [8230]
            else slice0 truncated (maxLen - 1) @ [8230]))"

section \<open>Line patterns\<close>

definition lines_of :: "jsstring \<Rightarrow> jsstring list" where
  \<comment> \<open>\<open>body.replace(/\r\n/g, '\n').split('\n')\<close>\<close>
  "lines_of body = splitOn 10 (replaceCRLF body)"

definition isMdHeading :: "jsstring \<Rightarrow> bool" where
  \<comment> \<open>\<open>/^#{2,6}\s+/\<close>: the run of \<open>#\<close> has two to six members and white space follows it\<close>
  "isMdHeading t =
     (let n = length (takeWhile (\<lambda>c. c = 35) t)
      in 2 \<le> n \<and> n \<le> 6 \<and> startsWithWs (dropWhile (\<lambda>c. c = 35) t))"

definition headingRe :: "jsstring \<Rightarrow> jsstring \<Rightarrow> bool" where
  \<comment> \<open>\<open>/^#{2,3}\s*kw\s*$/i\<close> for the keyword \<open>kw\<close>\<close>
  "headingRe kw t =
     (let n = length (takeWhile (\<lambda>c. c = 35) t)
      in 2 \<le> n \<and> n \<le> 3 \<and>
         (case stripPrefixCI kw (dropWhile isWhiteSpace (dropWhile (\<lambda>c. c = 35) t)) of
            None \<Rightarrow> False
          | Some r \<Rightarrow> dropWhile isWhiteSpace r = []))"

definition SUMMARY_HEADING_PATTERNS :: "(jsstring \<Rightarrow> bool) list" where
  "SUMMARY_HEADING_PATTERNS =
     [headingRe (js ''summary''), headingRe (js ''tldr''),
      headingRe (js ''tl;dr''), headingRe (js ''overview'')]"

definition isEmph :: "jschar \<Rightarrow> bool" where
  \<comment> \<open>the class \<open>[*_]\<close>\<close>
  "isEmph c = (c = 42 \<or> c = 95)"

definition isEmphHash :: "jschar \<Rightarrow> bool" where
  \<comment> \<open>the class \<open>[*_#]\<close>\<close>
  "isEmphHash c = (c = 42 \<or> c = 95 \<or> c = 35)"

definition CODERABBIT_MARKER_RE :: "jsstring \<Rightarrow> bool" where
  \<comment> \<open>\<open>/^(?:[*_#]*\s*)*summary\s+by\s+coderabbit\s*(?:[*_]*\s*)$/i\<close>: the leading group
      takes the whole run of \<open>[*_#]\<close> and white space, since no shorter run is followed by \<open>s\<close>\<close>
  "CODERABBIT_MARKER_RE t =
     (case stripPrefixCI (js ''summary'')
             (dropWhile (\<lambda>c. isEmphHash c \<or> isWhiteSpace c) t) of
        None \<Rightarrow> False
      | Some r1 \<Rightarrow>
         (case skipWs1 r1 of
            None \<Rightarrow> False
          | Some r2 \<Rightarrow>
             (case stripPrefixCI (js ''by'') r2 of
                None \<Rightarrow> False
              | Some r3 \<Rightarrow>
                 (case skipWs1 r3 of
                    None \<Rightarrow> False
                  | Some r4 \<Rightarrow>
                     (case stripPrefixCI (js ''coderabbit'') r4 of
                        None \<Rightarrow> False
                      | Some r5 \<Rightarrow>
                          dropWhile isWhiteSpace
                            (dropWhile isEmph (dropWhile isWhiteSpace r5)) = [])))))"

definition CODERABBIT_SECTION_TITLES_LIST :: "jsstring list" where
  "CODERABBIT_SECTION_TITLES_LIST =
     [js ''New Features'', js ''Bug Fixes'', js ''Improvements'', js ''Refactor'',
      js ''Chores'', js ''Data'', js ''Validation'', js ''Documentation'', js ''Tests'',
      js ''Style'', js ''Performance'', js ''Other Changes'', js ''Enhancements'',
      js ''Breaking Changes'']"

definition isCodeRabbitSectionTitle :: "jsstring \<Rightarrow> jsstring option" where
  \<comment> \<open>\<open>line.replace(/^[*_#]+\s*/, '').replace(/\s*[*_]+$/, '').trim()\<close>, then the look-up.
      The second pattern matches leftmost: the last run of \<open>[*_]\<close> with the white space before it.\<close>
  "isCodeRabbitSectionTitle line =
     (let a = (if takeWhile isEmphHash line = [] then line
               else dropWhile isWhiteSpace (dropWhile isEmphHash line));
          b = (if takeWhile isEmph (rev a) = [] then a
               else rev (dropWhile isWhiteSpace (dropWhile isEmph (rev a))));
          cleaned = trim b
      in if cleaned \<in> set CODERABBIT_SECTION_TITLES_LIST then Some cleaned else None)"

section \<open>The section extractor\<close>

definition extractSectionUnderHeading :: "jsstring \<Rightarrow> (jsstring \<Rightarrow> bool) \<Rightarrow> jsstring" where
  "extractSectionUnderHeading body headingMatchFn =
     (if body = [] then []
      else
        (let lines = lines_of body in
         case findIndex (\<lambda>l. headingMatchFn (trim l)) lines of
           None \<Rightarrow> []
         | Some i \<Rightarrow>
             joinWith [10]
               (takeWhile (\<lambda>l. \<not> isMdHeading (trim l)) (drop (i + 1) lines))))"

section \<open>The structured-summary extractor\<close>

record item =
  item_section :: jsstring
  item_text :: jsstring

fun captureBlock :: "jsstring list \<Rightarrow> jsstring list" where
  \<comment> \<open>the loop over the lines behind the marker, up to the first boundary\<close>
  "captureBlock [] = []"
| "captureBlock (l # ls) =
     (let t = trim l in
      if t = [] then [] # captureBlock ls
      else if CODERABBIT_MARKER_RE t then []
      else if isMdHeading t then []
      else if toLowerCase t = js ''image'' then []
      else l # captureBlock ls)"

definition stripLeadingBullet :: "jsstring \<Rightarrow> jsstring" where
  \<comment> \<open>\<open>line.replace(/^[-*]\s+/, '')\<close>: no \<open>g\<close>, no \<open>m\<close>, so at the start of the line only\<close>
  "stripLeadingBullet line =
     (case lineMarker Bullet line of None \<Rightarrow> line | Some (w, rest) \<Rightarrow> rest)"

fun parseItems :: "jsstring option \<Rightarrow> jsstring list \<Rightarrow> item list" where
  "parseItems currentSection [] = []"
| "parseItems currentSection (raw # rest) =
     (let line = trim raw in
      if line = [] then parseItems currentSection rest
      else
        (case isCodeRabbitSectionTitle line of
           Some sectionMatch \<Rightarrow> parseItems (Some sectionMatch) rest
         | None \<Rightarrow>
            (case currentSection of
               None \<Rightarrow> parseItems currentSection rest
             | Some sec \<Rightarrow>
                 \<lparr>item_section = sec, item_text = trim (stripLeadingBullet line)\<rparr>
                   # parseItems currentSection rest)))"

definition sectionPriorityTable :: "(jsstring \<times> nat) list" where
  "sectionPriorityTable =
     [(js ''New Features'', 0), (js ''Enhancements'', 0), (js ''Bug Fixes'', 1),
      (js ''Improvements'', 2), (js ''Validation'', 3), (js ''Refactor'', 4),
      (js ''Performance'', 4), (js ''Chores'', 5), (js ''Data'', 6),
      (js ''Documentation'', 7), (js ''Tests'', 7), (js ''Style'', 8),
      (js ''Other Changes'', 9), (js ''Breaking Changes'', 0)]"

definition sectionPriority :: "item \<Rightarrow> nat" where
  \<comment> \<open>\<open>sectionPriority[a.section] ?? 99\<close>\<close>
  "sectionPriority a =
     (case map_of sectionPriorityTable (item_section a) of None \<Rightarrow> 99 | Some p \<Rightarrow> p)"

text \<open>
  The selection loop. \<open>selected\<close> is the array built so far; \<open>break\<close> returns it,
  \<open>continue\<close> goes on with the next item and leaves it as it is.
\<close>

fun selectLoop :: "item list \<Rightarrow> item list \<Rightarrow> item list" where
  "selectLoop selected [] = selected"
| "selectLoop selected (i # rest) =
     (if length selected \<ge> 4 then selected
      else if length (filter (\<lambda>s. item_section s = item_section i) selected) \<ge> 2
      then selectLoop selected rest
      else selectLoop (selected @ [i]) rest)"

definition selectItems :: "item list \<Rightarrow> item list" where
  "selectItems items = selectLoop [] items"

definition itemFragment :: "jsstring \<Rightarrow> jsstring" where
  \<comment> \<open>the first character lower-cased, and the cut of a text longer than 80;
      \<open>text.lastIndexOf(' ', 77)\<close> looks at the indices 0 to 77 only\<close>
  "itemFragment txt =
     (let t = lowerFirst txt in
      if length t > 80 then
        (let cut = lastIndexOf 32 (take 78 t)
         in slice0 t (if cut > 40 then cut else 77) @ js ''...'')
      else t)"

definition renderPart :: "item \<Rightarrow> jsstring" where
  \<comment> \<open>the \<open>switch\<close> of the generator\<close>
  "renderPart i =
     (let t = itemFragment (item_text i); s = item_section i in
      if s = js ''New Features'' \<or> s = js ''Enhancements'' then t
      else if s = js ''Bug Fixes'' then js ''fixed '' @ t
      else if s = js ''Improvements'' then js ''improved '' @ t
      else if s = js ''Validation'' then js ''added validation for '' @ t
      else if s = js ''Performance'' then js ''performance: '' @ t
      else t)"

definition renderPart_backfill :: "item \<Rightarrow> jsstring" where
  \<comment> \<open>the \<open>switch\<close> of \<open>backfill-releases.mjs\<close>, which has no case for Performance\<close>
  "renderPart_backfill i =
     (let t = itemFragment (item_text i); s = item_section i in
      if s = js ''New Features'' \<or> s = js ''Enhancements'' then t
      else if s = js ''Bug Fixes'' then js ''fixed '' @ t
      else if s = js ''Improvements'' then js ''improved '' @ t
      else if s = js ''Validation'' then js ''added validation for '' @ t
      else t)"

fun joinParts :: "jsstring list \<Rightarrow> jsstring" where
  \<comment> \<open>\<open>parts\<close> is never empty where the scripts build the sentence: \<open>items\<close> is not
      empty there, and the first item is always selected (\<open>selectItems_nonempty\<close> below)\<close>
  "joinParts [] = []"
| "joinParts [p] = upperFirst p"
| "joinParts [p, q] = upperFirst p @ js '' and '' @ q"
| "joinParts (p # q # r # rest) =
     upperFirst p @ js '', '' @ joinWith (js '', '') (butlast (q # r # rest))
       @ js '', and '' @ last (q # r # rest)"

definition extractCodeRabbitSummary :: "jsstring \<Rightarrow> jsstring" where
  "extractCodeRabbitSummary body =
     (if body = [] then []
      else
        (let lines = lines_of body in
         case findIndex (\<lambda>l. CODERABBIT_MARKER_RE (trim l)) lines of
           None \<Rightarrow> []
         | Some startIdx \<Rightarrow>
            (let blockLines = captureBlock (drop (startIdx + 1) lines);
                 block = trim (joinWith [10] blockLines)
             in if block = [] then []
                else if \<not> list_ex (\<lambda>l. isCodeRabbitSectionTitle (trim l) \<noteq> None) blockLines
                then normalizeSummaryText block
                else
                  (let items = parseItems None blockLines in
                   if items = [] then []
                   else
                     (let sorted = sort_key sectionPriority items;
                          selected = selectItems sorted;
                          parts = map renderPart selected
                      in normalizeSummaryText (joinParts parts))))))"

section \<open>The structured-summary extractor of the backfill script\<close>

text \<open>
  \<open>extractCodeRabbitSummary\<close> of \<open>backfill-releases.mjs\<close> has the marker pattern, the
  section titles, the priorities, the selection loop and the sentence of the generator.
  It differs in the lines it captures (HTML comments are skipped, and one ends the
  block), in how it cleans a section title and an item, and in the \<open>switch\<close>.
\<close>

definition startsWith :: "jsstring \<Rightarrow> jsstring \<Rightarrow> bool" where
  \<comment> \<open>\<open>s.startsWith(p)\<close>\<close>
  "startsWith s p = (take (length p) s = p)"

fun includesStr :: "jsstring \<Rightarrow> jsstring \<Rightarrow> bool" where
  \<comment> \<open>\<open>s.includes(sub)\<close>\<close>
  "includesStr [] sub = (sub = [])"
| "includesStr (c # cs) sub = (startsWith (c # cs) sub \<or> includesStr cs sub)"

definition isSectionLead :: "jschar \<Rightarrow> bool" where
  \<comment> \<open>the class \<open>[\s*_#-]\<close>\<close>
  "isSectionLead c = (isWhiteSpace c \<or> c = 42 \<or> c = 95 \<or> c = 35 \<or> c = 45)"

definition isSectionTrail :: "jschar \<Rightarrow> bool" where
  \<comment> \<open>the class \<open>[\s*_#]\<close>\<close>
  "isSectionTrail c = (isWhiteSpace c \<or> c = 42 \<or> c = 95 \<or> c = 35)"

definition isCodeRabbitSectionTitle_backfill :: "jsstring \<Rightarrow> jsstring option" where
  \<comment> \<open>\<open>line.replace(/^[\s*_#-]+/, '')\<close>, then \<open>.replace(/[\s*_#]+$/, '')\<close>, then the look-up\<close>
  "isCodeRabbitSectionTitle_backfill line =
     (let cleaned = rev (dropWhile isSectionTrail (rev (dropWhile isSectionLead line)))
      in if cleaned \<in> set CODERABBIT_SECTION_TITLES_LIST then Some cleaned else None)"

fun captureBlock_backfill :: "jsstring list \<Rightarrow> jsstring list" where
  "captureBlock_backfill [] = []"
| "captureBlock_backfill (l # ls) =
     (let t = trim l in
      if t = [] then [] # captureBlock_backfill ls
      else if startsWith t (js ''<!--'') \<and> includesStr t (js ''end of auto-generated'') then []
      else if startsWith t (js ''<!--'') then captureBlock_backfill ls
      else if CODERABBIT_MARKER_RE t then []
      else if isMdHeading t then []
      else if toLowerCase t = js ''image'' then []
      else l # captureBlock_backfill ls)"

definition isItemLead :: "jschar \<Rightarrow> bool" where
  \<comment> \<open>the class \<open>[\s*_-]\<close>\<close>
  "isItemLead c = (isWhiteSpace c \<or> c = 42 \<or> c = 95 \<or> c = 45)"

definition isItemTrail :: "jschar \<Rightarrow> bool" where
  \<comment> \<open>the class \<open>[\s*_]\<close>\<close>
  "isItemTrail c = (isWhiteSpace c \<or> c = 42 \<or> c = 95)"

definition itemText_backfill :: "jsstring \<Rightarrow> jsstring" where
  \<comment> \<open>\<open>line.replace(/^[\s*_-]+/, '').replace(/[\s*_]+$/, '').trim()\<close>\<close>
  "itemText_backfill line =
     trim (rev (dropWhile isItemTrail (rev (dropWhile isItemLead line))))"

fun parseItems_backfill :: "jsstring option \<Rightarrow> jsstring list \<Rightarrow> item list" where
  "parseItems_backfill currentSection [] = []"
| "parseItems_backfill currentSection (raw # rest) =
     (let line = trim raw in
      if line = [] then parseItems_backfill currentSection rest
      else
        (case isCodeRabbitSectionTitle_backfill line of
           Some sectionMatch \<Rightarrow> parseItems_backfill (Some sectionMatch) rest
         | None \<Rightarrow>
            (case currentSection of
               None \<Rightarrow> parseItems_backfill currentSection rest
             | Some sec \<Rightarrow>
                 (let itemText = itemText_backfill line in
                  if itemText \<noteq> []
                  then \<lparr>item_section = sec, item_text = itemText\<rparr>
                         # parseItems_backfill currentSection rest
                  else parseItems_backfill currentSection rest))))"

definition extractCodeRabbitSummary_backfill :: "jsstring \<Rightarrow> jsstring" where
  "extractCodeRabbitSummary_backfill body =
     (if body = [] then []
      else
        (let lines = lines_of body in
         case findIndex (\<lambda>l. CODERABBIT_MARKER_RE (trim l)) lines of
           None \<Rightarrow> []
         | Some startIdx \<Rightarrow>
            (let blockLines = captureBlock_backfill (drop (startIdx + 1) lines);
                 block = trim (joinWith [10] blockLines)
             in if block = [] then []
                else if \<not> list_ex (\<lambda>l. isCodeRabbitSectionTitle_backfill (trim l) \<noteq> None)
                              blockLines
                then normalizeSummaryText block
                else
                  (let items = parseItems_backfill None blockLines in
                   if items = [] then []
                   else
                     (let sorted = sort_key sectionPriority items;
                          selected = selectItems sorted;
                          parts = map renderPart_backfill selected
                      in normalizeSummaryText (joinParts parts))))))"

section \<open>The summary selector\<close>

fun firstHeadingSummary :: "jsstring \<Rightarrow> (jsstring \<Rightarrow> bool) list \<Rightarrow> jsstring" where
  \<comment> \<open>the loop over \<open>SUMMARY_HEADING_PATTERNS\<close>\<close>
  "firstHeadingSummary body [] = []"
| "firstHeadingSummary body (re # res) =
     (let normalized = normalizeSummaryText (extractSectionUnderHeading body re) in
      if normalized \<noteq> [] then normalized else firstHeadingSummary body res)"

definition extractPreferredSummaryFromBody :: "jsstring option \<Rightarrow> jsstring" where
  \<comment> \<open>\<open>None\<close> is an absent body (\<open>null\<close>)\<close>
  "extractPreferredSummaryFromBody body =
     (case body of
        None \<Rightarrow> []
      | Some b \<Rightarrow>
          if b = [] then []
          else
            (let codeRabbitSummary = extractCodeRabbitSummary b in
             if codeRabbitSummary \<noteq> [] then codeRabbitSummary
             else firstHeadingSummary b SUMMARY_HEADING_PATTERNS))"

section \<open>The title cleaner\<close>

definition conventionalTail :: "jsstring \<Rightarrow> jsstring option" where
  \<comment> \<open>\<open>\s*(?:\([^)]*\))?\s*:\s*\<close> behind the type: the scope in parentheses is optional,
      the colon is not\<close>
  "conventionalTail r =
     (let r1 = dropWhile isWhiteSpace r;
          r2 = (case r1 of
                  [] \<Rightarrow> r1
                | c # cs \<Rightarrow>
                    (if c = 40 then
                       (case dropWhile (\<lambda>d. d \<noteq> 41) cs of [] \<Rightarrow> r1 | d # ds \<Rightarrow> ds)
                     else r1));
          r3 = dropWhile isWhiteSpace r2
      in case r3 of
           [] \<Rightarrow> None
         | c # cs \<Rightarrow> if c = 58 then Some (dropWhile isWhiteSpace cs) else None)"

definition conventionalTypes :: "jsstring list" where
  "conventionalTypes =
     [js ''feat'', js ''fix'', js ''chore'', js ''refactor'', js ''docs'', js ''ci'',
      js ''style'', js ''perf'', js ''test'', js ''build'']"

fun conventionalPrefix :: "jsstring list \<Rightarrow> jsstring \<Rightarrow> jsstring option" where
  \<comment> \<open>the alternatives in their order; one whose tail fails gives way to the next\<close>
  "conventionalPrefix [] t = None"
| "conventionalPrefix (a # alts) t =
     (case stripPrefixCI a t of
        None \<Rightarrow> conventionalPrefix alts t
      | Some r \<Rightarrow>
          (case conventionalTail r of
             None \<Rightarrow> conventionalPrefix alts t
           | Some rest \<Rightarrow> Some rest))"

definition stripConventionalPrefix :: "jsstring \<Rightarrow> jsstring" where
  \<comment> \<open>\<open>t.replace(/^(?:feat|fix|chore|refactor|docs|ci|style|perf|test|build)\s*(?:\([^)]*\))?\s*:\s*/i, '')\<close>\<close>
  "stripConventionalPrefix t =
     (case conventionalPrefix conventionalTypes t of None \<Rightarrow> t | Some rest \<Rightarrow> rest)"

definition ticketTail :: "jsstring \<Rightarrow> jsstring option" where
  \<comment> \<open>\<open>^[A-Z]{2,}-\d+\<close>: what follows the ticket id at the start of the input\<close>
  "ticketTail t =
     (if length (takeWhile isUpperAZ t) < 2 then None
      else
        (case dropWhile isUpperAZ t of
           [] \<Rightarrow> None
         | c # r \<Rightarrow>
             if c = 45 \<and> takeWhile isDigit r \<noteq> [] then Some (dropWhile isDigit r) else None))"

definition isBranchName :: "jsstring \<Rightarrow> bool" where
  \<comment> \<open>\<open>/^[A-Z]{2,}-\d+\//\<close>\<close>
  "isBranchName t =
     (case ticketTail t of None \<Rightarrow> False | Some r \<Rightarrow> (case r of [] \<Rightarrow> False | c # _ \<Rightarrow> c = 47))"

definition isTicketId :: "jsstring \<Rightarrow> bool" where
  \<comment> \<open>\<open>/^[A-Z]{2,}-\d+$/\<close>\<close>
  "isTicketId s = (case ticketTail s of None \<Rightarrow> False | Some r \<Rightarrow> r = [])"

definition capitalizedWord :: "jsstring \<Rightarrow> jsstring option" where
  \<comment> \<open>\<open>[A-Z][a-z]+\<close> at the start of the input\<close>
  "capitalizedWord s =
     (case s of
        [] \<Rightarrow> None
      | c # r \<Rightarrow>
          if isUpperAZ c \<and> takeWhile isLowerAZ r \<noteq> [] then Some (dropWhile isLowerAZ r)
          else None)"

definition isAuthorName :: "jsstring \<Rightarrow> bool" where
  \<comment> \<open>\<open>/^[A-Z][a-z]+-[A-Z][a-z]+$/\<close>\<close>
  "isAuthorName s =
     (case capitalizedWord s of
        None \<Rightarrow> False
      | Some r \<Rightarrow>
          (case r of
             [] \<Rightarrow> False
           | c # r' \<Rightarrow> c = 45 \<and> capitalizedWord r' = Some []))"

definition meaningfulSegments :: "jsstring list \<Rightarrow> jsstring list" where
  \<comment> \<open>the \<open>filter\<close>; \<open>segments.indexOf(s)\<close> is the first index that holds \<open>s\<close>\<close>
  "meaningfulSegments segments =
     filter (\<lambda>s.
         \<not> isTicketId s \<and>
         \<not> (findIndex (\<lambda>x. x = s) segments = Some (length segments - 1) \<and> isAuthorName s))
       segments"

definition cleanPRTitle :: "jsstring \<Rightarrow> jsstring" where
  "cleanPRTitle raw =
     (let t0 = stripConventionalPrefix (trim raw);
          t1 = (if isBranchName t0 then
                  (let meaningful = meaningfulSegments (splitOn 47 t0) in
                   if meaningful \<noteq> [] then joinWith [32] meaningful else t0)
                else t0);
          t = trim (collapseWs (map (\<lambda>c. if c = 45 then 32 else c) t1))
      in if t = toUpperCase t \<and> length t > 3
         then (case t of [] \<Rightarrow> [] | c # cs \<Rightarrow> toUpperCU c # toLowerCase cs)
         else upperFirst t)"

section \<open>The loop body of \<open>main\<close> and of \<open>buildGrouped\<close>\<close>

definition titleIsFix :: "jsstring \<Rightarrow> bool" where
  \<comment> \<open>\<open>/^fix/i.test(originalTitle) || /\bfix\b/i.test(originalTitle)\<close>\<close>
  "titleIsFix originalTitle =
     (stripPrefixCI (js ''fix'') originalTitle \<noteq> None \<or>
      searchWord (js ''fix'') False originalTitle)"

definition sprintTail :: "jsstring \<Rightarrow> jsstring option" where
  \<comment> \<open>\<open>^sprint\s+\d+\<close> under the \<open>i\<close> flag: what follows the number\<close>
  "sprintTail t =
     (case stripPrefixCI (js ''sprint'') t of
        None \<Rightarrow> None
      | Some r \<Rightarrow>
          (case skipWs1 r of
             None \<Rightarrow> None
           | Some r' \<Rightarrow> if takeWhile isDigit r' = [] then None else Some (dropWhile isDigit r')))"

definition titleIsSprint :: "jsstring \<Rightarrow> bool" where
  \<comment> \<open>\<open>/^sprint\s+\d+/i\<close>\<close>
  "titleIsSprint originalTitle = (sprintTail originalTitle \<noteq> None)"

definition isBareSprint :: "jsstring \<Rightarrow> bool" where
  \<comment> \<open>\<open>/^Sprint\s+\d+$/i\<close>\<close>
  "isBareSprint s = (sprintTail s = Some [])"

record pull =
  pr_number :: int
  pr_title :: jsstring
  pr_body :: "jsstring option"
  pr_html_url :: jsstring
  pr_merged_at :: "jsstring option"

record entry =
  number :: int
  title :: jsstring
  url :: jsstring
  mergedAt :: jsstring
  isFix :: bool
  isSprint :: bool

definition displaySummary :: "jsstring \<Rightarrow> jsstring option \<Rightarrow> jsstring" where
  \<comment> \<open>\<open>toSingleLineSummary(preferredSummary) || cleanPRTitle(originalTitle)\<close>, then the
      suffix of a bare sprint title\<close>
  "displaySummary originalTitle body =
     (let preferredSummary = extractPreferredSummaryFromBody body;
          oneLine = toSingleLineSummary preferredSummary 200;
          d = (if oneLine \<noteq> [] then oneLine else cleanPRTitle originalTitle)
      in if titleIsSprint originalTitle \<and> isBareSprint d then d @ js '' release bundle''
         else d)"

definition buildEntry :: "pull \<Rightarrow> entry" where
  \<comment> \<open>the record that \<open>main\<close> pushes for a pull request that is merged and not excluded;
      \<open>buildGrouped\<close> builds its record by the same six expressions\<close>
  "buildEntry pr =
     \<lparr>number = pr_number pr,
      title = displaySummary (pr_title pr) (pr_body pr),
      url = pr_html_url pr,
      mergedAt = (case pr_merged_at pr of None \<Rightarrow> [] | Some m \<Rightarrow> m),
      isFix = titleIsFix (pr_title pr),
      isSprint = titleIsSprint (pr_title pr)\<rparr>"

datatype outcome = NotMerged | Excluded | Pushed entry

definition processPull :: "pull \<Rightarrow> outcome" where
  \<comment> \<open>\<open>if (!pr.merged_at) continue; if (shouldExcludePRTitle(pr.title)) continue;\<close>
      (the tests before them are on the repository of the search result)\<close>
  "processPull pr =
     (if pr_merged_at pr = None \<or> pr_merged_at pr = Some [] then NotMerged
      else if shouldExcludePRTitle (pr_title pr) then Excluded
      else Pushed (buildEntry pr))"

section \<open>Notions of the specification\<close>

text \<open>
  The selection as the specification words it: the ranked items in order, an item
  skipped when its section already has two kept items, and of what is kept the first four.
\<close>

fun capLoop :: "item list \<Rightarrow> item list \<Rightarrow> item list" where
  "capLoop kept [] = kept"
| "capLoop kept (i # rest) =
     (if length (filter (\<lambda>s. item_section s = item_section i) kept) \<ge> 2
      then capLoop kept rest
      else capLoop (kept @ [i]) rest)"

definition perSectionCap :: "item list \<Rightarrow> item list" where
  "perSectionCap items = capLoop [] items"

text \<open>
  A body has a marker line, or a summary heading, when one of its lines, trimmed as the
  extractors trim it, matches the pattern.
\<close>

definition hasMarkerLine :: "jsstring \<Rightarrow> bool" where
  "hasMarkerLine body = list_ex (\<lambda>l. CODERABBIT_MARKER_RE (trim l)) (lines_of body)"

definition hasSummaryHeading :: "jsstring \<Rightarrow> bool" where
  "hasSummaryHeading body =
     list_ex (\<lambda>re. list_ex (\<lambda>l. re (trim l)) (lines_of body)) SUMMARY_HEADING_PATTERNS"

text \<open>
  What a second pass of the normalizer would still find: a pair CR LF, which
  \<open>/\r\n/\<close> tests for, and a list marker at the start of a line, which
  \<open>/^[-*]\s+/m\<close> and \<open>/^\d+\.\s+/m\<close> test for. \<open>hasTripleNL\<close> tests for \<open>/\n{3}/\<close>.
\<close>

fun hasCRLF :: "jsstring \<Rightarrow> bool" where
  "hasCRLF [] = False"
| "hasCRLF [c] = False"
| "hasCRLF (c # d # ds) = ((c = 13 \<and> d = 10) \<or> hasCRLF (d # ds))"

fun hasLineMarker :: "marker \<Rightarrow> bool \<Rightarrow> jsstring \<Rightarrow> bool" where
  "hasLineMarker k atStart [] = False"
| "hasLineMarker k atStart (c # cs) =
     ((atStart \<and> lineMarker k (c # cs) \<noteq> None) \<or> hasLineMarker k (isLineTerminator c) cs)"

fun hasTripleNL :: "jsstring \<Rightarrow> bool" where
  "hasTripleNL (a # b # c # r) = ((a = 10 \<and> b = 10 \<and> c = 10) \<or> hasTripleNL (b # c # r))"
| "hasTripleNL r = False"

text \<open>
  The stages of the extractors by name: the lines captured behind the first marker
  line, and whether one of them is a section title.
\<close>

definition summaryBlock :: "jsstring \<Rightarrow> jsstring list option" where
  "summaryBlock body =
     (case findIndex (\<lambda>l. CODERABBIT_MARKER_RE (trim l)) (lines_of body) of
        None \<Rightarrow> None
      | Some startIdx \<Rightarrow> Some (captureBlock (drop (startIdx + 1) (lines_of body))))"

definition summaryBlock_backfill :: "jsstring \<Rightarrow> jsstring list option" where
  "summaryBlock_backfill body =
     (case findIndex (\<lambda>l. CODERABBIT_MARKER_RE (trim l)) (lines_of body) of
        None \<Rightarrow> None
      | Some startIdx \<Rightarrow> Some (captureBlock_backfill (drop (startIdx + 1) (lines_of body))))"

definition isSectioned :: "jsstring list \<Rightarrow> bool" where
  "isSectioned blockLines =
     list_ex (\<lambda>l. isCodeRabbitSectionTitle (trim l) \<noteq> None) blockLines"

definition isSectioned_backfill :: "jsstring list \<Rightarrow> bool" where
  "isSectioned_backfill blockLines =
     list_ex (\<lambda>l. isCodeRabbitSectionTitle_backfill (trim l) \<noteq> None) blockLines"

section \<open>Exclusion by title\<close>

lemma stripPrefixCI_append:
  "stripPrefixCI (a @ b) s =
     (case stripPrefixCI a s of None \<Rightarrow> None | Some m \<Rightarrow> stripPrefixCI b m)"
  by (induction a s rule: stripPrefixCI.induct) auto

lemma stripPrefixCI_split:
  "stripPrefixCI p s = Some r \<Longrightarrow> \<exists>pre. s = pre @ r \<and> length pre = length p"
proof (induction p s rule: stripPrefixCI.induct)
  case (3 p ps c cs)
  then obtain pre where "cs = pre @ r" "length pre = length ps"
    by (auto split: if_splits)
  then have "c # cs = (c # pre) @ r \<and> length (c # pre) = length (p # ps)" by simp
  then show ?case by blast
qed auto

lemma searchWord_here: "wordHere lit pw s \<Longrightarrow> searchWord lit pw s"
  by (cases s) auto

lemma searchWord_append:
  "searchWord lit (isWordChar c) s \<Longrightarrow> searchWord lit pw (pre @ c # s)"
  by (induction pre arbitrary: pw) auto

lemma toUpperCU_word: "toUpperCU p = toUpperCU c \<Longrightarrow> isWordChar c = isWordChar p"
  by (auto simp: toUpperCU_def isWordChar_def isLowerAZ_def isUpperAZ_def isDigit_def
      split: if_splits)

lemma staging_here:
  assumes "stripPrefixCI (js ''staging'') m = Some r" and "wordBoundary True r"
  shows "wordHere (js ''staging'') False m"
proof -
  from assms(1) obtain c cs where t: "m = c # cs" and c: "toUpperCU 115 = toUpperCU c"
    by (cases m) (auto split: if_splits)
  from c have "isWordChar c" using toUpperCU_word [of 115 c]
    by (simp add: isWordChar_def isLowerAZ_def)
  then have "wordBoundary False m" by (simp add: wordBoundary_def t)
  with assms show ?thesis by (simp add: wordHere_def)
qed

lemma staging_start_word: "re_staging_start t \<Longrightarrow> re_staging_word t"
proof -
  assume "re_staging_start t"
  then obtain r where r: "stripPrefixCI (js ''staging'') t = Some r" "wordBoundary True r"
    by (auto simp: re_staging_start_def split: option.splits)
  then have "wordHere (js ''staging'') False t" by (rule staging_here)
  then show ?thesis unfolding re_staging_word_def by (rule searchWord_here)
qed

lemma update_staging_word: "re_update_staging t \<Longrightarrow> re_staging_word t"
proof -
  assume "re_update_staging t"
  then obtain r where r: "stripPrefixCI (js ''update staging'') t = Some r" "wordBoundary True r"
    by (auto simp: re_update_staging_def split: option.splits)
  have "js ''update staging'' = js ''update'' @ [32] @ js ''staging''" by simp
  with r(1) obtain m1 m where m: "stripPrefixCI (js ''update'') t = Some m1"
     "stripPrefixCI [32] m1 = Some m"
     "stripPrefixCI (js ''staging'') m = Some r"
    by (auto simp only: stripPrefixCI_append split: option.splits)
  from m(2) obtain c where c: "m1 = c # m" "toUpperCU 32 = toUpperCU c"
    by (cases m1) (auto split: if_splits)
  from c(2) have nw: "\<not> isWordChar c" using toUpperCU_word [of 32 c]
    by (simp add: isWordChar_def isLowerAZ_def isUpperAZ_def isDigit_def)
  from m(1) obtain pre where pre: "t = pre @ m1" using stripPrefixCI_split by blast
  have "wordHere (js ''staging'') False m" using m(3) r(2) by (rule staging_here)
  then have "searchWord (js ''staging'') (isWordChar c) m" using nw
    by (simp add: searchWord_here)
  then have "searchWord (js ''staging'') False (pre @ c # m)" by (rule searchWord_append)
  then show ?thesis by (simp add: re_staging_word_def pre c(1))
qed

text \<open>
  C10. For every title, \<open>shouldExcludePRTitle\<close> holds exactly when the title matches
  the whole-word pattern \<open>/\bstaging\b/i\<close>: a title that matches \<open>/^update staging\b/i\<close>
  or \<open>/^staging\b/i\<close> contains \<open>staging\<close> as a whole word, so the two anchored
  patterns of \<open>EXCLUDE_TITLE_PATTERNS\<close> add nothing.
\<close>

theorem exclude_is_whole_word_staging:
  "shouldExcludePRTitle t = re_staging_word t"
  unfolding shouldExcludePRTitle_def EXCLUDE_TITLE_PATTERNS_def
  using update_staging_word staging_start_word by auto

section \<open>Selection of the items\<close>

lemma capLoop_prefix: "\<exists>more. capLoop kept items = kept @ more"
proof (induction items arbitrary: kept)
  case Nil
  show ?case by simp
next
  case (Cons i rest)
  show ?case
  proof (cases "length (filter (\<lambda>s. item_section s = item_section i) kept) \<ge> 2")
    case True
    with Cons [of kept] show ?thesis by simp
  next
    case False
    from Cons [of "kept @ [i]"] obtain more where "capLoop (kept @ [i]) rest = (kept @ [i]) @ more"
      by blast
    with False show ?thesis by simp
  qed
qed

lemma selectLoop_take:
  "length selected \<le> 4 \<Longrightarrow> selectLoop selected items = take 4 (capLoop selected items)"
proof (induction items arbitrary: selected)
  case Nil
  then show ?case by simp
next
  case (Cons i rest)
  show ?case
  proof (cases "length selected \<ge> 4")
    case True
    with Cons.prems have len: "length selected = 4" by simp
    obtain more where "capLoop selected (i # rest) = selected @ more"
      using capLoop_prefix by blast
    with len True show ?thesis by simp
  next
    case False
    then have "length (selected @ [i]) \<le> 4" by simp
    with Cons.IH [of selected] Cons.IH [of "selected @ [i]"] Cons.prems False
    show ?thesis by simp
  qed
qed

lemma selectLoop_section_cap:
  "\<forall>s. length (filter (\<lambda>x. item_section x = s) selected) \<le> 2 \<Longrightarrow>
   length (filter (\<lambda>x. item_section x = s) (selectLoop selected items)) \<le> 2"
proof (induction items arbitrary: selected)
  case Nil
  then show ?case by simp
next
  case (Cons i rest)
  show ?case
  proof (cases "length selected \<ge> 4")
    case True
    with Cons.prems show ?thesis by simp
  next
    case False
    show ?thesis
    proof (cases "length (filter (\<lambda>x. item_section x = item_section i) selected) \<ge> 2")
      case True
      with False Cons.IH [of selected] Cons.prems show ?thesis by simp
    next
      case nfull: False
      have "\<forall>s. length (filter (\<lambda>x. item_section x = s) (selected @ [i])) \<le> 2"
      proof
        fix s
        show "length (filter (\<lambda>x. item_section x = s) (selected @ [i])) \<le> 2"
          using Cons.prems nfull by (cases "item_section i = s") auto
      qed
      with False nfull Cons.IH [of "selected @ [i]"] show ?thesis by simp
    qed
  qed
qed

lemma selectItems_nonempty: "items \<noteq> [] \<Longrightarrow> selectItems items \<noteq> []"
proof (cases items)
  case Nil
  assume "items \<noteq> []"
  with Nil show ?thesis by simp
next
  case (Cons i rest)
  obtain more where "capLoop [i] rest = [i] @ more" using capLoop_prefix by blast
  then have "take 4 (capLoop [i] rest) \<noteq> []" by simp
  moreover have "selectItems items = selectLoop [i] rest" by (simp add: selectItems_def Cons)
  moreover have "selectLoop [i] rest = take 4 (capLoop [i] rest)" by (rule selectLoop_take) simp
  ultimately show ?thesis by simp
qed

lemma trim_Nil_iff: "trim s = [] \<longleftrightarrow> (\<forall>c \<in> set s. isWhiteSpace c)"
proof
  assume "trim s = []"
  then have "\<forall>x \<in> set (dropWhile isWhiteSpace s). isWhiteSpace x"
    by (simp add: trim_def dropWhile_eq_Nil_conv)
  moreover have "dropWhile isWhiteSpace s = [] \<or> \<not> isWhiteSpace (hd (dropWhile isWhiteSpace s))"
    using hd_dropWhile [of isWhiteSpace s] by blast
  ultimately have "dropWhile isWhiteSpace s = []"
    by (cases "dropWhile isWhiteSpace s") auto
  then show "\<forall>c \<in> set s. isWhiteSpace c" by (simp add: dropWhile_eq_Nil_conv)
next
  assume "\<forall>c \<in> set s. isWhiteSpace c"
  then have "dropWhile isWhiteSpace s = []" by (simp add: dropWhile_eq_Nil_conv)
  then show "trim s = []" by (simp only: trim_def dropWhile.simps rev.simps)
qed

lemma set_joinWith: "l \<in> set ls \<Longrightarrow> set l \<subseteq> set (joinWith sep ls)"
  by (induction sep ls rule: joinWith.induct) auto

lemma block_nonempty:
  assumes "l \<in> set blockLines" and "trim l \<noteq> []"
  shows "trim (joinWith [10] blockLines) \<noteq> []"
proof -
  from assms(2) obtain c where c: "c \<in> set l" "\<not> isWhiteSpace c"
    using trim_Nil_iff by blast
  with assms(1) have "c \<in> set (joinWith [10] blockLines)" using set_joinWith by blast
  with c(2) show ?thesis using trim_Nil_iff by blast
qed

lemma section_title_nonempty: "isCodeRabbitSectionTitle t \<noteq> None \<Longrightarrow> t \<noteq> []"
  by (auto simp: isCodeRabbitSectionTitle_def CODERABBIT_SECTION_TITLES_LIST_def trim_def)

lemma section_title_backfill_nonempty: "isCodeRabbitSectionTitle_backfill t \<noteq> None \<Longrightarrow> t \<noteq> []"
  by (auto simp: isCodeRabbitSectionTitle_backfill_def CODERABBIT_SECTION_TITLES_LIST_def)

lemma sectioned_block_nonempty: "isSectioned blockLines \<Longrightarrow> trim (joinWith [10] blockLines) \<noteq> []"
proof -
  assume "isSectioned blockLines"
  then obtain l where l: "l \<in> set blockLines" "isCodeRabbitSectionTitle (trim l) \<noteq> None"
    by (auto simp: isSectioned_def list_ex_iff)
  from l(2) have "trim l \<noteq> []" by (rule section_title_nonempty)
  with l(1) show ?thesis by (rule block_nonempty)
qed

lemma sectioned_block_backfill_nonempty:
  "isSectioned_backfill blockLines \<Longrightarrow> trim (joinWith [10] blockLines) \<noteq> []"
proof -
  assume "isSectioned_backfill blockLines"
  then obtain l where l: "l \<in> set blockLines"
      "isCodeRabbitSectionTitle_backfill (trim l) \<noteq> None"
    by (auto simp: isSectioned_backfill_def list_ex_iff)
  from l(2) have "trim l \<noteq> []" by (rule section_title_backfill_nonempty)
  with l(1) show ?thesis by (rule block_nonempty)
qed

lemma selectItems_take: "selectItems items = take 4 (perSectionCap items)"
  unfolding selectItems_def perSectionCap_def by (rule selectLoop_take) simp

lemma sentence_of_sectioned_block:
  assumes "body \<noteq> []" and "summaryBlock body = Some blockLines"
    and "isSectioned blockLines" and "parseItems None blockLines \<noteq> []"
  shows "extractCodeRabbitSummary body =
     normalizeSummaryText (joinParts (map renderPart
       (take 4 (perSectionCap (sort_key sectionPriority (parseItems None blockLines))))))"
proof -
  from assms(2) obtain i where i: "findIndex (\<lambda>l. CODERABBIT_MARKER_RE (trim l)) (lines_of body) = Some i"
    and b: "blockLines = captureBlock (drop (i + 1) (lines_of body))"
    by (auto simp: summaryBlock_def split: option.splits)
  from assms(3) have ne: "trim (joinWith [10] blockLines) \<noteq> []"
    by (rule sectioned_block_nonempty)
  from assms(3) have s: "list_ex (\<lambda>l. isCodeRabbitSectionTitle (trim l) \<noteq> None) blockLines"
    by (simp add: isSectioned_def)
  show ?thesis
    using assms(1) assms(4) ne s unfolding b
    by (simp add: extractCodeRabbitSummary_def Let_def i selectItems_take)
qed

lemma sentence_of_sectioned_block_backfill:
  assumes "body \<noteq> []" and "summaryBlock_backfill body = Some blockLines"
    and "isSectioned_backfill blockLines" and "parseItems_backfill None blockLines \<noteq> []"
  shows "extractCodeRabbitSummary_backfill body =
     normalizeSummaryText (joinParts (map renderPart_backfill
       (take 4 (perSectionCap (sort_key sectionPriority (parseItems_backfill None blockLines))))))"
proof -
  from assms(2) obtain i where i: "findIndex (\<lambda>l. CODERABBIT_MARKER_RE (trim l)) (lines_of body) = Some i"
    and b: "blockLines = captureBlock_backfill (drop (i + 1) (lines_of body))"
    by (auto simp: summaryBlock_backfill_def split: option.splits)
  from assms(3) have ne: "trim (joinWith [10] blockLines) \<noteq> []"
    by (rule sectioned_block_backfill_nonempty)
  from assms(3) have s: "list_ex (\<lambda>l. isCodeRabbitSectionTitle_backfill (trim l) \<noteq> None) blockLines"
    by (simp add: isSectioned_backfill_def)
  show ?thesis
    using assms(1) assms(4) ne s unfolding b
    by (simp add: extractCodeRabbitSummary_backfill_def Let_def i selectItems_take)
qed

text \<open>
  C3. In the selection step the sentence is built from at most 4 items in all and at
  most 2 of any one section, and an item skipped because its section already has 2
  selected items does not count toward the 4: the loop goes on behind it, so what is
  selected is the first four of the items that pass the cap of their section. For a
  sectioned block with an item, the summary that either script returns is the sentence
  rendered from exactly this selection of the ranked items.
\<close>

theorem selection_caps:
  "(body \<noteq> [] \<and> summaryBlock body = Some blockLines \<and> isSectioned blockLines
      \<and> parseItems None blockLines \<noteq> []
     \<longrightarrow> extractCodeRabbitSummary body =
          normalizeSummaryText (joinParts (map renderPart
            (selectItems (sort_key sectionPriority (parseItems None blockLines))))))
   \<and> (body \<noteq> [] \<and> summaryBlock_backfill body = Some blockLines
      \<and> isSectioned_backfill blockLines \<and> parseItems_backfill None blockLines \<noteq> []
     \<longrightarrow> extractCodeRabbitSummary_backfill body =
          normalizeSummaryText (joinParts (map renderPart_backfill
            (selectItems (sort_key sectionPriority (parseItems_backfill None blockLines))))))
   \<and> length (selectItems items) \<le> 4
   \<and> length (filter (\<lambda>x. item_section x = s) (selectItems items)) \<le> 2
   \<and> selectItems items = take 4 (perSectionCap items)"
proof -
  have "selectItems items = take 4 (perSectionCap items)" by (rule selectItems_take)
  moreover from this have "length (selectItems items) \<le> 4" by simp
  moreover have "length (filter (\<lambda>x. item_section x = s) (selectItems items)) \<le> 2"
    unfolding selectItems_def by (rule selectLoop_section_cap) simp
  moreover have "extractCodeRabbitSummary body =
          normalizeSummaryText (joinParts (map renderPart
            (selectItems (sort_key sectionPriority (parseItems None blockLines)))))"
    if "body \<noteq> []" "summaryBlock body = Some blockLines" "isSectioned blockLines"
      "parseItems None blockLines \<noteq> []"
    using sentence_of_sectioned_block [OF that] by (simp only: selectItems_take)
  moreover have "extractCodeRabbitSummary_backfill body =
          normalizeSummaryText (joinParts (map renderPart_backfill
            (selectItems (sort_key sectionPriority (parseItems_backfill None blockLines)))))"
    if "body \<noteq> []" "summaryBlock_backfill body = Some blockLines"
      "isSectioned_backfill blockLines" "parseItems_backfill None blockLines \<noteq> []"
    using sentence_of_sectioned_block_backfill [OF that] by (simp only: selectItems_take)
  ultimately show ?thesis by blast
qed

theorem selection_caps_witness:
  "extractCodeRabbitSummary
     (js ''Summary by CodeRabbit\<newline>New Features\<newline>- One\<newline>- Two\<newline>- Three\<newline>Bug Fixes\<newline>- Four\<newline>Chores\<newline>- Five\<newline>- Six'')
     = js ''One, two, fixed four, and five''
   \<and> extractCodeRabbitSummary_backfill
     (js ''Summary by CodeRabbit\<newline>New Features\<newline>- One\<newline>- Two\<newline>- Three\<newline>Bug Fixes\<newline>- Four\<newline>Chores\<newline>- Five\<newline>- Six'')
     = js ''One, two, fixed four, and five''"
proof -
  let ?body = "js ''Summary by CodeRabbit\<newline>New Features\<newline>- One\<newline>- Two\<newline>- Three\<newline>Bug Fixes\<newline>- Four\<newline>Chores\<newline>- Five\<newline>- Six''"
  let ?block = "[js ''New Features'', js ''- One'', js ''- Two'', js ''- Three'',
      js ''Bug Fixes'', js ''- Four'', js ''Chores'', js ''- Five'', js ''- Six'']"
  have b: "?body \<noteq> []" by simp
  have g1: "summaryBlock ?body = Some ?block" by code_simp
  have g2: "isSectioned ?block" by code_simp
  have g3: "parseItems None ?block \<noteq> []" by code_simp
  have g4: "normalizeSummaryText (joinParts (map renderPart
            (selectItems (sort_key sectionPriority (parseItems None ?block)))))
          = js ''One, two, fixed four, and five''" by code_simp
  have f1: "summaryBlock_backfill ?body = Some ?block" by code_simp
  have f2: "isSectioned_backfill ?block" by code_simp
  have f3: "parseItems_backfill None ?block \<noteq> []" by code_simp
  have f4: "normalizeSummaryText (joinParts (map renderPart_backfill
            (selectItems (sort_key sectionPriority (parseItems_backfill None ?block)))))
          = js ''One, two, fixed four, and five''" by code_simp
  from selection_caps [of ?body ?block] b g1 g2 g3
  have "extractCodeRabbitSummary ?body = normalizeSummaryText (joinParts (map renderPart
            (selectItems (sort_key sectionPriority (parseItems None ?block)))))"
    by blast
  then have 1: "extractCodeRabbitSummary ?body = js ''One, two, fixed four, and five''"
    using g4 by (rule trans)
  from selection_caps [of ?body ?block] b f1 f2 f3
  have "extractCodeRabbitSummary_backfill ?body
      = normalizeSummaryText (joinParts (map renderPart_backfill
            (selectItems (sort_key sectionPriority (parseItems_backfill None ?block)))))"
    by blast
  then have 2: "extractCodeRabbitSummary_backfill ?body = js ''One, two, fixed four, and five''"
    using f4 by (rule trans)
  from 1 2 show ?thesis by (rule conjI)
qed

section \<open>Scenarios\<close>

text \<open>
  C4. For the body with the sections New Features (``Added dark mode'') and Bug Fixes
  (``Fixed crash on save'') behind the marker line, the extractor selects both items,
  of ranks 0 and 1, and returns ``Added dark mode and fixed fixed crash on save'': the
  prefix of the Bug Fixes section goes before a text that itself starts with ``fixed''.
\<close>

theorem dark_mode_scenario:
  "selectItems (sort_key sectionPriority (parseItems None (captureBlock (drop 1 (lines_of
      (js ''Summary by CodeRabbit\<newline>\<newline>New Features\<newline>- Added dark mode\<newline>\<newline>Bug Fixes\<newline>- Fixed crash on save\<newline>''))))))
     = [\<lparr>item_section = js ''New Features'', item_text = js ''Added dark mode''\<rparr>,
        \<lparr>item_section = js ''Bug Fixes'', item_text = js ''Fixed crash on save''\<rparr>]
   \<and> map sectionPriority
        [\<lparr>item_section = js ''New Features'', item_text = js ''Added dark mode''\<rparr>,
         \<lparr>item_section = js ''Bug Fixes'', item_text = js ''Fixed crash on save''\<rparr>] = [0, 1]
   \<and> map renderPart
        [\<lparr>item_section = js ''New Features'', item_text = js ''Added dark mode''\<rparr>,
         \<lparr>item_section = js ''Bug Fixes'', item_text = js ''Fixed crash on save''\<rparr>]
       = [js ''added dark mode'', js ''fixed fixed crash on save'']
   \<and> extractCodeRabbitSummary
        (js ''Summary by CodeRabbit\<newline>\<newline>New Features\<newline>- Added dark mode\<newline>\<newline>Bug Fixes\<newline>- Fixed crash on save\<newline>'')
       = js ''Added dark mode and fixed fixed crash on save''"
  by code_simp

text \<open>
  C5. The title ``TEC-7097/Weekly-Update-Character-Limit/Carlo-Sanchez'' loses its ticket
  and author segments and its hyphens, and its first character is capitalized. The
  capitals inside the title stay: the rest of a title is lower-cased only when the whole
  title is in capitals, so the result is ``Weekly Update Character Limit'' and not the
  ``Weekly update character limit'' that the comment above \<open>cleanPRTitle\<close> promises.
\<close>

theorem branch_title_keeps_inner_capitals:
  "cleanPRTitle (js ''TEC-7097/Weekly-Update-Character-Limit/Carlo-Sanchez'')
     = js ''Weekly Update Character Limit''
   \<and> cleanPRTitle (js ''TEC-7097/Weekly-Update-Character-Limit/Carlo-Sanchez'')
     \<noteq> js ''Weekly update character limit''"
  by code_simp

section \<open>Rendering of a fragment\<close>

text \<open>
  C6, amended. A selected item whose section is none of New Features, Enhancements,
  Bug Fixes, Improvements, Validation and Performance is rendered as its fragment (first
  character lower-cased, cut when long) with nothing added. In the generator a
  Performance item gets the label ``performance: '' in front; in the backfill script it
  is rendered without one, like every section outside the first five.
\<close>

theorem fragment_without_prefix:
  "(item_section i \<notin> set [js ''New Features'', js ''Enhancements'', js ''Bug Fixes'',
        js ''Improvements'', js ''Validation'', js ''Performance'']
      \<longrightarrow> renderPart i = itemFragment (item_text i))
   \<and> (item_section i = js ''Performance''
      \<longrightarrow> renderPart i = js ''performance: '' @ itemFragment (item_text i))
   \<and> (item_section i \<notin> set [js ''New Features'', js ''Enhancements'', js ''Bug Fixes'',
        js ''Improvements'', js ''Validation'']
      \<longrightarrow> renderPart_backfill i = itemFragment (item_text i))"
  by (simp add: renderPart_def renderPart_backfill_def Let_def)

theorem fragment_without_prefix_witness:
  "renderPart \<lparr>item_section = js ''Refactor'', item_text = js ''Split the parser''\<rparr>
     = js ''split the parser''
   \<and> renderPart \<lparr>item_section = js ''Performance'', item_text = js ''Faster load''\<rparr>
     = js ''performance: faster load''
   \<and> renderPart_backfill \<lparr>item_section = js ''Performance'', item_text = js ''Faster load''\<rparr>
     = js ''faster load''"
proof -
  let ?r = "\<lparr>item_section = js ''Refactor'', item_text = js ''Split the parser''\<rparr>"
  let ?p = "\<lparr>item_section = js ''Performance'', item_text = js ''Faster load''\<rparr>"
  have "renderPart ?r = itemFragment (item_text ?r)"
    using fragment_without_prefix [of ?r] by simp
  moreover have "itemFragment (item_text ?r) = js ''split the parser''" by code_simp
  ultimately have 1: "renderPart ?r = js ''split the parser''" by (rule trans)
  have "renderPart ?p = js ''performance: '' @ itemFragment (item_text ?p)"
    using fragment_without_prefix [of ?p] by simp
  moreover have "js ''performance: '' @ itemFragment (item_text ?p) = js ''performance: faster load''"
    by code_simp
  ultimately have 2: "renderPart ?p = js ''performance: faster load''" by (rule trans)
  have "renderPart_backfill ?p = itemFragment (item_text ?p)"
    using fragment_without_prefix [of ?p] by simp
  moreover have "itemFragment (item_text ?p) = js ''faster load''" by code_simp
  ultimately have 3: "renderPart_backfill ?p = js ''faster load''" by (rule trans)
  from 1 2 3 show ?thesis by (intro conjI)
qed

text \<open>
  C6 as stated fails in the generator for a Performance item.
\<close>

theorem performance_fragment_is_labelled:
  "js ''Performance'' \<notin> set [js ''New Features'', js ''Enhancements'', js ''Bug Fixes'',
        js ''Improvements'', js ''Validation'']
   \<and> renderPart \<lparr>item_section = js ''Performance'', item_text = js ''Faster load''\<rparr>
       = js ''performance: faster load''
   \<and> itemFragment (js ''Faster load'') = js ''faster load''"
  by code_simp

section \<open>The single-line summary\<close>

lemma findIndex_bound: "findIndex p xs = Some i \<Longrightarrow> i < length xs"
  by (induction xs arbitrary: i) (auto split: if_splits option.splits)

lemma findIndex_None: "findIndex p xs = None \<longleftrightarrow> \<not> list_ex p xs"
  by (induction xs) (auto split: option.splits)

lemma lastIndexOf_less: "lastIndexOf ch s < int (length s)"
  by (auto simp: lastIndexOf_def split: option.splits)

lemma length_slice0: "0 \<le> e \<Longrightarrow> int (length (slice0 s e)) \<le> e"
  by (simp add: slice0_def)

lemma length_toSingleLineSummary:
  assumes "0 < maxLen"
  shows "int (length (toSingleLineSummary text maxLen)) \<le> maxLen"
proof -
  define oneLine where "oneLine = collapseWs (normalizeSummaryText text)"
  define truncated where "truncated = slice0 oneLine maxLen"
  define lastSpace where "lastSpace = lastIndexOf 32 truncated"
  have tl: "int (length truncated) \<le> maxLen"
    unfolding truncated_def using assms by (simp add: length_slice0)
  have ls: "lastSpace < maxLen"
    using lastIndexOf_less [of 32 truncated] tl unfolding lastSpace_def by simp
  have a: "int (length (slice0 truncated lastSpace @ [8230])) \<le> maxLen"
    if "5 * lastSpace > 3 * maxLen"
  proof -
    from that assms have "0 \<le> lastSpace" by simp
    then have "int (length (slice0 truncated lastSpace)) \<le> lastSpace" by (rule length_slice0)
    with ls show ?thesis by simp
  qed
  have b: "int (length (slice0 truncated (maxLen - 1) @ [8230])) \<le> maxLen"
  proof -
    from assms have "0 \<le> maxLen - 1" by simp
    then have "int (length (slice0 truncated (maxLen - 1))) \<le> maxLen - 1" by (rule length_slice0)
    then show ?thesis by simp
  qed
  show ?thesis
    unfolding toSingleLineSummary_def Let_def
    using a b assms
    by (simp add: oneLine_def [symmetric] truncated_def [symmetric] lastSpace_def [symmetric])
qed

text \<open>
  C7. For every text and every positive \<open>maxLen\<close>, \<open>toSingleLineSummary(text, maxLen)\<close>
  has at most \<open>maxLen\<close> code units, the ellipsis of a cut summary counting as one.
\<close>

theorem single_line_bound:
  assumes "0 < maxLen"
  shows "int (length (toSingleLineSummary text maxLen)) \<le> maxLen"
  using assms by (rule length_toSingleLineSummary)

theorem single_line_bound_witness:
  "(0::int) < 15 \<and> int (length (toSingleLineSummary (js ''aaaaaaaaaa bbbbbbbbbb'') 15)) \<le> 15
   \<and> toSingleLineSummary (js ''aaaaaaaaaa bbbbbbbbbb'') 15 = js ''aaaaaaaaaa'' @ [8230]"
proof -
  have h: "(0::int) < 15" by simp
  have "toSingleLineSummary (js ''aaaaaaaaaa bbbbbbbbbb'') 15 = js ''aaaaaaaaaa'' @ [8230]"
    by code_simp
  with h single_line_bound [OF h, of "js ''aaaaaaaaaa bbbbbbbbbb''"] show ?thesis by blast
qed

section \<open>The fallback chain\<close>

lemma normalize_empty: "normalizeSummaryText [] = []"
  by (simp add: normalizeSummaryText_def trim_def)

lemma single_line_empty: "toSingleLineSummary [] n = []"
  by (simp add: toSingleLineSummary_def normalize_empty)

lemma no_marker_no_structured:
  "\<not> hasMarkerLine b \<Longrightarrow> extractCodeRabbitSummary b = []"
  by (simp add: hasMarkerLine_def extractCodeRabbitSummary_def findIndex_None [symmetric])

lemma no_heading_no_section:
  "\<not> list_ex (\<lambda>l. re (trim l)) (lines_of b) \<Longrightarrow> extractSectionUnderHeading b re = []"
  by (simp add: extractSectionUnderHeading_def findIndex_None [symmetric])

lemma no_heading_no_summary:
  "\<not> list_ex (\<lambda>re. list_ex (\<lambda>l. re (trim l)) (lines_of b)) res \<Longrightarrow>
   firstHeadingSummary b res = []"
  by (induction res) (simp_all add: no_heading_no_section normalize_empty)

text \<open>
  C8, amended. For a body none of whose lines matches the CodeRabbit marker pattern or
  one of the four summary heading patterns, \<open>extractPreferredSummaryFromBody\<close> returns
  the empty string, and the display summary is the cleaned original title, followed by
  `` release bundle'' when the original title is a sprint title and the cleaned title is
  a bare ``Sprint N''.
\<close>

theorem fallback_to_cleaned_title:
  assumes "\<not> hasMarkerLine b" and "\<not> hasSummaryHeading b"
  shows "extractPreferredSummaryFromBody (Some b) = []
       \<and> displaySummary t (Some b) =
           (if titleIsSprint t \<and> isBareSprint (cleanPRTitle t)
            then cleanPRTitle t @ js '' release bundle'' else cleanPRTitle t)"
proof -
  from assms(1) have "extractCodeRabbitSummary b = []" by (rule no_marker_no_structured)
  moreover from assms(2) have "firstHeadingSummary b SUMMARY_HEADING_PATTERNS = []"
    unfolding hasSummaryHeading_def by (rule no_heading_no_summary)
  ultimately have e: "extractPreferredSummaryFromBody (Some b) = []"
    by (simp add: extractPreferredSummaryFromBody_def)
  then show ?thesis by (simp add: displaySummary_def single_line_empty Let_def)
qed

theorem fallback_to_cleaned_title_witness:
  "\<not> hasMarkerLine (js ''Bumps the cache size.\<newline>\<newline>#### Summary\<newline>Tested by hand.'')
   \<and> \<not> hasSummaryHeading (js ''Bumps the cache size.\<newline>\<newline>#### Summary\<newline>Tested by hand.'')
   \<and> extractPreferredSummaryFromBody
        (Some (js ''Bumps the cache size.\<newline>\<newline>#### Summary\<newline>Tested by hand.'')) = []
   \<and> displaySummary (js ''chore: bump-cache size'')
        (Some (js ''Bumps the cache size.\<newline>\<newline>#### Summary\<newline>Tested by hand.''))
       = js ''Bump cache size''"
proof -
  let ?b = "js ''Bumps the cache size.\<newline>\<newline>#### Summary\<newline>Tested by hand.''"
  have m: "\<not> hasMarkerLine ?b" by code_simp
  have h: "\<not> hasSummaryHeading ?b" by code_simp
  have c: "(if titleIsSprint (js ''chore: bump-cache size'')
              \<and> isBareSprint (cleanPRTitle (js ''chore: bump-cache size''))
            then cleanPRTitle (js ''chore: bump-cache size'') @ js '' release bundle''
            else cleanPRTitle (js ''chore: bump-cache size'')) = js ''Bump cache size''"
    by code_simp
  from fallback_to_cleaned_title [OF m h, of "js ''chore: bump-cache size''"] c m h
  show ?thesis by (simp only: simp_thms)
qed

text \<open>
  C8 as stated fails for a bare sprint title: the body has no marker and no heading,
  the extracted summary is empty, and the display summary is not the cleaned title.
\<close>

theorem bare_sprint_title_gets_suffix:
  "\<not> hasMarkerLine (js ''Routine bundle.'')
   \<and> \<not> hasSummaryHeading (js ''Routine bundle.'')
   \<and> extractPreferredSummaryFromBody (Some (js ''Routine bundle.'')) = []
   \<and> cleanPRTitle (js ''Sprint 12'') = js ''Sprint 12''
   \<and> displaySummary (js ''Sprint 12'') (Some (js ''Routine bundle.''))
       = js ''Sprint 12 release bundle''"
  by code_simp

section \<open>Classification\<close>

text \<open>
  C9. The fix flag, the sprint flag and the exclusion of a merged pull request are
  functions of its original title: two merged pull requests with the same title are
  both excluded, or both pushed with the same \<open>isFix\<close> and the same \<open>isSprint\<close>,
  whatever their bodies and whatever summary is extracted from them.
\<close>

theorem classification_by_title_only:
  assumes "pr_title p = pr_title q"
    and "processPull p \<noteq> NotMerged" and "processPull q \<noteq> NotMerged"
  shows "(processPull p = Excluded \<and> processPull q = Excluded)
       \<or> (processPull p = Pushed (buildEntry p) \<and> processPull q = Pushed (buildEntry q)
          \<and> isFix (buildEntry p) = isFix (buildEntry q)
          \<and> isSprint (buildEntry p) = isSprint (buildEntry q))"
  using assms by (auto simp: processPull_def buildEntry_def split: if_splits)

theorem classification_by_title_only_witness:
  "isFix (buildEntry \<lparr>pr_number = 7, pr_title = js ''Fix login crash'', pr_body = None,
            pr_html_url = js ''u7'', pr_merged_at = Some (js ''2025-03-01'')\<rparr>)
   \<and> isFix (buildEntry \<lparr>pr_number = 8, pr_title = js ''Fix login crash'',
            pr_body = Some (js ''## Summary\<newline>Adds a retry to the login form''),
            pr_html_url = js ''u8'', pr_merged_at = Some (js ''2025-03-02'')\<rparr>)
   \<and> title (buildEntry \<lparr>pr_number = 7, pr_title = js ''Fix login crash'', pr_body = None,
            pr_html_url = js ''u7'', pr_merged_at = Some (js ''2025-03-01'')\<rparr>)
       = js ''Fix login crash''
   \<and> title (buildEntry \<lparr>pr_number = 8, pr_title = js ''Fix login crash'',
            pr_body = Some (js ''## Summary\<newline>Adds a retry to the login form''),
            pr_html_url = js ''u8'', pr_merged_at = Some (js ''2025-03-02'')\<rparr>)
       = js ''Adds a retry to the login form''"
proof -
  let ?p = "\<lparr>pr_number = 7, pr_title = js ''Fix login crash'', pr_body = None,
            pr_html_url = js ''u7'', pr_merged_at = Some (js ''2025-03-01'')\<rparr>"
  let ?q = "\<lparr>pr_number = 8, pr_title = js ''Fix login crash'',
            pr_body = Some (js ''## Summary\<newline>Adds a retry to the login form''),
            pr_html_url = js ''u8'', pr_merged_at = Some (js ''2025-03-02'')\<rparr>"
  have t: "pr_title ?p = pr_title ?q" by simp
  have mp: "processPull ?p \<noteq> NotMerged" by code_simp
  have mq: "processPull ?q \<noteq> NotMerged" by code_simp
  have ep: "processPull ?p \<noteq> Excluded" by code_simp
  have fp: "isFix (buildEntry ?p)" by code_simp
  have tp: "title (buildEntry ?p) = js ''Fix login crash''" by code_simp
  have tq: "title (buildEntry ?q) = js ''Adds a retry to the login form''" by code_simp
  from classification_by_title_only [OF t mp mq] ep
  have "isFix (buildEntry ?p) = isFix (buildEntry ?q)" by blast
  with fp have "isFix (buildEntry ?q)" by blast
  with fp tp tq show ?thesis by (intro conjI)
qed

section \<open>The display title\<close>














section \<open>The normalizer applied twice\<close>

lemma replaceCRLF_id: "\<not> hasCRLF s \<Longrightarrow> replaceCRLF s = s"
  by (induction s rule: replaceCRLF.induct) auto

lemma stripLineMarkers_id: "\<not> hasLineMarker k a s \<Longrightarrow> stripLineMarkers k a s = s"
  by (induction s arbitrary: a) (auto split: option.splits)

lemma hasTripleNL_Cons:
  "hasTripleNL (c # r) \<longleftrightarrow> (c = 10 \<and> 2 \<le> length (takeWhile (\<lambda>d. d = 10) r)) \<or> hasTripleNL r"
proof (cases r)
  case Nil
  then show ?thesis by simp
next
  case (Cons a r')
  then show ?thesis by (cases r') auto
qed

lemma run_dropWhile: "takeWhile P (dropWhile P xs) = []"
  by (induction xs) auto

lemma run_collapseNewlines:
  "length (takeWhile (\<lambda>d. d = 10) (collapseNewlines s))
     = min 2 (length (takeWhile (\<lambda>d. d = 10) s))"
proof (induction s rule: collapseNewlines.induct)
  case 1
  show ?case by simp
next
  case (2 c cs)
  show ?case
  proof (cases "c = 10 \<and> 2 \<le> length (takeWhile (\<lambda>d. d = 10) cs)")
    case True
    with 2(1) show ?thesis by (simp add: run_dropWhile)
  next
    case False
    with 2(2) show ?thesis by auto
  qed
qed

lemma collapseNewlines_no_triple: "\<not> hasTripleNL (collapseNewlines s)"
proof (induction s rule: collapseNewlines.induct)
  case 1
  show ?case by simp
next
  case (2 c cs)
  show ?case
  proof (cases "c = 10 \<and> 2 \<le> length (takeWhile (\<lambda>d. d = 10) cs)")
    case True
    with 2(1) show ?thesis
      by (simp add: hasTripleNL_Cons run_collapseNewlines run_dropWhile del: hasTripleNL.simps)
  next
    case False
    with 2(2) show ?thesis
      by (auto simp: hasTripleNL_Cons run_collapseNewlines simp del: hasTripleNL.simps)
  qed
qed

lemma collapseNewlines_id: "\<not> hasTripleNL s \<Longrightarrow> collapseNewlines s = s"
proof (induction s rule: collapseNewlines.induct)
  case 1
  show ?case by simp
next
  case (2 c cs)
  from 2(3) have a: "\<not> (c = 10 \<and> 2 \<le> length (takeWhile (\<lambda>d. d = 10) cs))"
    and b: "\<not> hasTripleNL cs"
    by (simp_all add: hasTripleNL_Cons del: hasTripleNL.simps)
  from a have "collapseNewlines (c # cs) = c # collapseNewlines cs" by auto
  with 2(2) [OF a b] show ?case by simp
qed

lemma hasTripleNL_prepend: "hasTripleNL s \<Longrightarrow> hasTripleNL (pre @ s)"
  by (induction pre) (simp_all add: hasTripleNL_Cons del: hasTripleNL.simps)

lemma run_append_le:
  "length (takeWhile P r) \<le> length (takeWhile P (r @ post))"
  by (induction r) auto

lemma hasTripleNL_append: "hasTripleNL s \<Longrightarrow> hasTripleNL (s @ post)"
proof (induction s)
  case Nil
  then show ?case by simp
next
  case (Cons c r)
  from Cons.prems have "(c = 10 \<and> 2 \<le> length (takeWhile (\<lambda>d. d = 10) r)) \<or> hasTripleNL r"
    by (simp add: hasTripleNL_Cons del: hasTripleNL.simps)
  then have "(c = 10 \<and> 2 \<le> length (takeWhile (\<lambda>d. d = 10) (r @ post))) \<or> hasTripleNL (r @ post)"
    using Cons.IH run_append_le [of "\<lambda>d. d = 10" r post] by auto
  then have "hasTripleNL (c # (r @ post))" by (simp add: hasTripleNL_Cons del: hasTripleNL.simps)
  then show ?case by simp
qed

lemma rev_dropWhile_split:
  "rev (dropWhile P (rev u)) @ rev (takeWhile P (rev u)) = u"
proof -
  have "rev (dropWhile P (rev u)) @ rev (takeWhile P (rev u))
          = rev (takeWhile P (rev u) @ dropWhile P (rev u))"
    by (simp only: rev_append)
  also have "\<dots> = rev (rev u)" by (simp only: takeWhile_dropWhile_id)
  also have "\<dots> = u" by simp
  finally show ?thesis .
qed

lemma trim_infix: "\<exists>pre post. s = pre @ trim s @ post"
proof -
  define u where "u = dropWhile isWhiteSpace s"
  have "u = trim s @ rev (takeWhile isWhiteSpace (rev u))"
    using rev_dropWhile_split [of isWhiteSpace u] by (simp add: trim_def u_def)
  moreover have "s = takeWhile isWhiteSpace s @ u" by (simp add: u_def)
  ultimately have "s = takeWhile isWhiteSpace s @ trim s @ rev (takeWhile isWhiteSpace (rev u))"
    by simp
  then show ?thesis by blast
qed

lemma hasTripleNL_trim: "hasTripleNL (trim s) \<Longrightarrow> hasTripleNL s"
proof -
  assume a: "hasTripleNL (trim s)"
  obtain pre post where s: "s = pre @ trim s @ post" using trim_infix by blast
  from a have "hasTripleNL (trim s @ post)" by (rule hasTripleNL_append)
  then have "hasTripleNL (pre @ trim s @ post)" by (rule hasTripleNL_prepend)
  with s show ?thesis by simp
qed

lemma dropWhile_fixed: "xs = [] \<or> \<not> P (hd xs) \<Longrightarrow> dropWhile P xs = xs"
  by (cases xs) auto

lemma trim_trim: "trim (trim s) = trim s"
proof -
  define u where "u = dropWhile isWhiteSpace s"
  define v where "v = rev (dropWhile isWhiteSpace (rev u))"
  have tv: "trim s = v" by (simp add: trim_def u_def v_def)
  have u0: "u = [] \<or> \<not> isWhiteSpace (hd u)"
    unfolding u_def using hd_dropWhile [of isWhiteSpace s] by blast
  obtain w where uv: "u = v @ w"
    using rev_dropWhile_split [of isWhiteSpace u] unfolding v_def by metis
  have "v = [] \<or> \<not> isWhiteSpace (hd v)"
  proof (cases v)
    case Nil
    then show ?thesis by simp
  next
    case (Cons a v')
    with uv have "hd u = hd v" "u \<noteq> []" by auto
    with u0 show ?thesis by simp
  qed
  then have d: "dropWhile isWhiteSpace v = v" by (rule dropWhile_fixed)
  have "rev v = dropWhile isWhiteSpace (rev u)" by (simp add: v_def)
  then have "dropWhile isWhiteSpace (rev v) = rev v" by (simp add: dropWhile_idem)
  with d have "trim v = v" by (simp add: trim_def)
  with tv show ?thesis by simp
qed

text \<open>
  C2, amended. \<open>normalizeSummaryText(normalizeSummaryText(x))\<close> equals
  \<open>normalizeSummaryText(x)\<close> for every \<open>x\<close> whose normalized text holds no pair CR LF and
  no bullet or ordered-list marker followed by white space at the start of a line. One
  pass removes one marker from a line and one CR LF pair at a place, so it can leave
  either behind.
\<close>

theorem normalize_idempotent_when_clean:
  assumes "\<not> hasCRLF (normalizeSummaryText x)"
    and "\<not> hasLineMarker Bullet True (normalizeSummaryText x)"
    and "\<not> hasLineMarker Ordered True (normalizeSummaryText x)"
  shows "normalizeSummaryText (normalizeSummaryText x) = normalizeSummaryText x"
proof -
  define z where "z = collapseNewlines (stripLineMarkers Ordered True
       (stripLineMarkers Bullet True (replaceCRLF x)))"
  define y where "y = normalizeSummaryText x"
  have y: "y = trim z" by (simp add: y_def z_def normalizeSummaryText_def)
  have "\<not> hasTripleNL z" unfolding z_def by (rule collapseNewlines_no_triple)
  then have "\<not> hasTripleNL y" unfolding y using hasTripleNL_trim by blast
  then have c: "collapseNewlines y = y" by (rule collapseNewlines_id)
  have t: "trim y = y" unfolding y by (rule trim_trim)
  from assms have "replaceCRLF y = y" "stripLineMarkers Bullet True y = y"
    "stripLineMarkers Ordered True y = y"
    unfolding y_def [symmetric]
    by (simp_all add: replaceCRLF_id stripLineMarkers_id)
  with c t have "normalizeSummaryText y = y" by (simp add: normalizeSummaryText_def)
  then show ?thesis by (simp add: y_def)
qed

theorem normalize_idempotent_when_clean_witness:
  "normalizeSummaryText (js ''- Added login\<newline>\<newline>\<newline>\<newline>2. Fixed logout  '')
     = js ''Added login\<newline>\<newline>Fixed logout''
   \<and> normalizeSummaryText (js ''Added login\<newline>\<newline>Fixed logout'')
     = js ''Added login\<newline>\<newline>Fixed logout''"
proof -
  let ?x = "js ''- Added login\<newline>\<newline>\<newline>\<newline>2. Fixed logout  ''"
  have n: "normalizeSummaryText ?x = js ''Added login\<newline>\<newline>Fixed logout''" by code_simp
  have a: "\<not> hasCRLF (normalizeSummaryText ?x)" by code_simp
  have b: "\<not> hasLineMarker Bullet True (normalizeSummaryText ?x)" by code_simp
  have c: "\<not> hasLineMarker Ordered True (normalizeSummaryText ?x)" by code_simp
  from normalize_idempotent_when_clean [OF a b c] n show ?thesis by simp
qed

text \<open>
  C2 as stated fails for a line with two markers: the first pass leaves the second one.
\<close>

theorem nested_marker_not_idempotent:
  "normalizeSummaryText (js ''- - a'') = js ''- a''
   \<and> normalizeSummaryText (normalizeSummaryText (js ''- - a'')) = js ''a''
   \<and> normalizeSummaryText (normalizeSummaryText (js ''- - a'')) \<noteq> normalizeSummaryText (js ''- - a'')"
  by code_simp

end
